theory Spec2Isabelle
  imports Main "HOL-Library.Sublist"
begin

section \<open>Diff line index (diff.ts)\<close>

text \<open>
  A changed file as the pull-files listing gives it (interface \<open>PullFile\<close>):
  \<open>status\<close> is a plain string in the source, \<open>patch\<close> is optional.
  Strings are byte lists; every character the source inspects (the newline, the
  markers \<open>+\<close> and \<open>-\<close>, \<open>@\<close>, the comma, the blank and the digits) is ASCII, so
  the byte view and JavaScript's code-unit view agree on them.
  Line numbers are JavaScript numbers holding integers; they are modelled as \<open>int\<close>
  (exact below \<open>2^53\<close>).
\<close>

record PullFile =
  filename :: string
  status :: string
  patch :: "string option"

text \<open>\<open>patch.split('\n')\<close>: the pieces between newlines; the empty string gives one empty piece.\<close>

fun split_lines :: "string \<Rightarrow> string list" where
  "split_lines [] = [[]]"
| "split_lines (c # cs) =
     (if c = CHR 0x0A then [] # split_lines cs
      else (case split_lines cs of
              [] \<Rightarrow> [[c]]
            | l # ls \<Rightarrow> (c # l) # ls))"

text \<open>\<open>raw.startsWith(lit)\<close>, and the rest of the string behind a literal prefix.\<close>

fun startsWith :: "string \<Rightarrow> string \<Rightarrow> bool" where
  "startsWith [] s = True"
| "startsWith (p # ps) [] = False"
| "startsWith (p # ps) (c # cs) = (p = c \<and> startsWith ps cs)"

fun expect :: "string \<Rightarrow> string \<Rightarrow> string option" where
  "expect [] s = Some s"
| "expect (p # ps) [] = None"
| "expect (p # ps) (c # cs) = (if p = c then expect ps cs else None)"

text \<open>The class \<open>\d\<close> of a regular expression without the unicode flag: \<open>0\<close> to \<open>9\<close>.\<close>

definition is_digit :: "char \<Rightarrow> bool" where
  "is_digit c = (c \<in> set ''0123456789'')"

text \<open>\<open>\d+\<close>, greedy: the longest run of digits, which must not be empty, and the rest.\<close>

definition digits1 :: "string \<Rightarrow> (string \<times> string) option" where
  "digits1 s =
     (let d = takeWhile is_digit s
      in if d = [] then None else Some (d, dropWhile is_digit s))"

text \<open>\<open>(?:,\d+)?\<close>: a comma followed by digits is consumed when it is there.\<close>

definition opt_comma_digits :: "string \<Rightarrow> string" where
  "opt_comma_digits s =
     (case s of
        [] \<Rightarrow> s
      | c # cs \<Rightarrow>
          (if c = CHR '','' then (case digits1 cs of None \<Rightarrow> s | Some (d, r) \<Rightarrow> r)
           else s))"

text \<open>
  \<open>raw.match(/^@@ -\d+(?:,\d+)? \+(\d+)(?:,\d+)? @@/)\<close>: the result is the text of capture
  group 1 when the expression matches a prefix of the line, \<open>None\<close> when it does not.
  Each digit run is followed in the expression by a comma or a blank, so no shorter run
  and no skipped optional group can lead to a match: the greedy reading below is the
  only one.
\<close>

definition hunkMatch :: "string \<Rightarrow> string option" where
  "hunkMatch raw =
     (case expect ''@@ -'' raw of
        None \<Rightarrow> None
      | Some r1 \<Rightarrow>
     (case digits1 r1 of
        None \<Rightarrow> None
      | Some (old_start, r2) \<Rightarrow>
     (case expect '' +'' (opt_comma_digits r2) of
        None \<Rightarrow> None
      | Some r3 \<Rightarrow>
     (case digits1 r3 of
        None \<Rightarrow> None
      | Some (new_start, r4) \<Rightarrow>
     (case expect '' @@'' (opt_comma_digits r4) of
        None \<Rightarrow> None
      | Some r5 \<Rightarrow> Some new_start)))))"

text \<open>
  The same regular expression read declaratively, to compare the matcher with: the line
  is \<open>@@ -\<close>, digits, an optional comma group, \<open> +\<close>, the captured digits, an optional
  comma group, \<open> @@\<close>, and anything after that.
\<close>

definition digits :: "string \<Rightarrow> bool" where
  "digits s = (s \<noteq> [] \<and> (\<forall>c\<in>set s. is_digit c))"

definition opt_group :: "string \<Rightarrow> bool" where
  "opt_group s = (s = [] \<or> (\<exists>t. s = CHR '','' # t \<and> digits t))"

definition regex_match :: "string \<Rightarrow> string \<Rightarrow> bool" where
  "regex_match raw d =
     (\<exists>a b c rest. raw = ''@@ -'' @ a @ b @ '' +'' @ d @ c @ '' @@'' @ rest
        \<and> digits a \<and> opt_group b \<and> digits d \<and> opt_group c)"

text \<open>\<open>parseInt(digits, 10)\<close> on a run of decimal digits.\<close>

definition digit_val :: "char \<Rightarrow> int" where
  "digit_val c = int (of_char c) - 48"

definition parseInt :: "string \<Rightarrow> int" where
  "parseInt ds = foldl (\<lambda>acc c. 10 * acc + digit_val c) 0 ds"

text \<open>The two mutable locals of \<open>parsePatchLines\<close>: the set \<open>lines\<close> and the cursor.\<close>

record parse_state =
  lines :: "int set"
  currentLine :: int

text \<open>One pass of the loop body over the line \<open>raw\<close>.\<close>

definition patch_step :: "parse_state \<Rightarrow> string \<Rightarrow> parse_state" where
  "patch_step st raw =
     (case hunkMatch raw of
        Some new_start \<Rightarrow> st\<lparr>currentLine := parseInt new_start\<rparr>
      | None \<Rightarrow>
          (if startsWith ''+'' raw
           then st\<lparr>lines := insert (currentLine st) (lines st),
                   currentLine := currentLine st + 1\<rparr>
           else if startsWith ''-'' raw then st
           else st\<lparr>currentLine := currentLine st + 1\<rparr>))"

definition parse_init :: parse_state where
  "parse_init = \<lparr>lines = {}, currentLine = 0\<rparr>"

definition parse_loop :: "string \<Rightarrow> parse_state" where
  "parse_loop p = foldl patch_step parse_init (split_lines p)"

definition parsePatchLines :: "string \<Rightarrow> int set" where
  "parsePatchLines p = lines (parse_loop p)"

text \<open>
  \<open>!file.patch\<close> holds for a missing patch and for the empty string alike.
\<close>

definition no_patch :: "PullFile \<Rightarrow> bool" where
  "no_patch f = (case patch f of None \<Rightarrow> True | Some p \<Rightarrow> p = [])"

definition skipped :: "PullFile \<Rightarrow> bool" where
  "skipped f = (status f = ''removed'' \<or> no_patch f)"

text \<open>
  \<open>parseChangedLines\<close>: the loop over the files, threading the \<open>Map\<close> it fills.
  \<open>result.set\<close> overwrites an entry of the same file name.
\<close>

definition changed_step :: "(string \<rightharpoonup> int set) \<Rightarrow> PullFile \<Rightarrow> (string \<rightharpoonup> int set)" where
  "changed_step result f =
     (if status f = ''removed'' then result
      else (case patch f of
              None \<Rightarrow> result
            | Some p \<Rightarrow>
                (if p = [] then result
                 else result(filename f \<mapsto> parsePatchLines p))))"

definition parseChangedLines :: "PullFile list \<Rightarrow> (string \<rightharpoonup> int set)" where
  "parseChangedLines files = foldl changed_step Map.empty files"

section \<open>Diagnostic classification (analyzer.ts)\<close>

datatype Severity = Error | Warning | Hint

text \<open>
  The interfaces of \<open>types.ts\<close>. A \<open>number\<close> holding a line or column is an \<open>int\<close>,
  \<open>T | null\<close> is an option. Record fields share one name space, so the fields of
  \<open>SerializedDiagnostic\<close> carry the prefix \<open>d_\<close> and those of \<open>FunctionSymbol\<close> the
  prefix \<open>s_\<close>; \<open>ReviewComment\<close> keeps the plain names.
\<close>

record ReviewComment =
  path :: string
  line :: int
  code :: string
  body :: string
  severity :: Severity

record SerializedDiagnostic =
  d_line :: int
  d_col :: int
  d_code :: string
  d_message :: string
  d_relatedLine :: "int option"
  d_relatedCol :: "int option"

record FunctionSymbol =
  s_name :: string
  s_line :: int
  s_parms :: "string list"
  s_outputs :: "string list"

record AnalysisResult =
  diagnostics :: "SerializedDiagnostic list"
  env :: "(string \<times> string) list"
  symbols :: "FunctionSymbol list"
  parseError :: "string option"

text \<open>
  The external engine \<open>interop.analyzeSource(content, fixpoint, strict, siblings)\<close>
  either throws or returns a result; it is a parameter of the model.
\<close>

datatype EngineOutcome = Throws | Returns AnalysisResult

type_synonym Engine = "string \<Rightarrow> bool \<Rightarrow> bool \<Rightarrow> (string \<times> string) list \<Rightarrow> EngineOutcome"

text \<open>The parameter \<open>options: { strict: boolean; fixpoint: boolean }\<close> of \<open>analyzeFile\<close>.\<close>

record Options =
  strict :: bool
  fixpoint :: bool

definition ERROR_CODES :: "string list" where
  "ERROR_CODES =
    [''W_INNER_DIM_MISMATCH'',
     ''W_ELEMENTWISE_MISMATCH'',
     ''W_CONSTRAINT_CONFLICT'',
     ''W_HORZCAT_ROW_MISMATCH'',
     ''W_VERTCAT_COL_MISMATCH'',
     ''W_RESHAPE_MISMATCH'',
     ''W_INDEX_OUT_OF_BOUNDS'',
     ''W_DIVISION_BY_ZERO'',
     ''W_ARITHMETIC_TYPE_MISMATCH'',
     ''W_TRANSPOSE_TYPE_MISMATCH'',
     ''W_NEGATE_TYPE_MISMATCH'',
     ''W_CONCAT_TYPE_MISMATCH'',
     ''W_INDEX_ASSIGN_TYPE_MISMATCH'',
     ''W_POSSIBLY_NEGATIVE_DIM'',
     ''W_FUNCTION_ARG_COUNT_MISMATCH'',
     ''W_LAMBDA_ARG_COUNT_MISMATCH'',
     ''W_MULTI_ASSIGN_COUNT_MISMATCH'',
     ''W_MULTI_ASSIGN_NON_CALL'',
     ''W_MULTI_ASSIGN_BUILTIN'',
     ''W_PROCEDURE_IN_EXPR'',
     ''W_BREAK_OUTSIDE_LOOP'',
     ''W_CONTINUE_OUTSIDE_LOOP'',
     ''W_STRICT_MODE'',
     ''W_MLDIVIDE_DIM_MISMATCH'',
     ''W_MATRIX_POWER_NON_SQUARE'']"

definition STRICT_ONLY_CODES :: "string list" where
  "STRICT_ONLY_CODES =
    [''W_UNKNOWN_FUNCTION'',
     ''W_RECURSIVE_FUNCTION'',
     ''W_RECURSIVE_LAMBDA'',
     ''W_UNSUPPORTED_BUILTIN'',
     ''W_UNSUPPORTED_SYNTAX'',
     ''W_UNSUPPORTED_INDEX_TYPE'',
     ''W_UNSUPPORTED_FIELD_BASE'',
     ''W_UNSUPPORTED_HANDLE_TARGET'',
     ''W_UNSUPPORTED_SWITCH_EXPR'',
     ''W_END_OUTSIDE_INDEXING'',
     ''W_EXTERNAL_PARSE_ERROR'',
     ''W_STRUCT_FIELD_NOT_FOUND'',
     ''W_CELL_TYPE_MISMATCH'',
     ''W_INDEX_INTO_NON_MATRIX'',
     ''W_NON_MATRIX_MULTIPLICATION'',
     ''W_SUBSCRIPT_ON_NON_INDEXABLE'',
     ''W_FIELD_ACCESS_ON_NON_STRUCT'',
     ''W_UNKNOWN_SIZE_FUNCTION'',
     ''W_GLOBAL_NOT_SUPPORTED'']"

text \<open>\<open>SET.has(code)\<close> on a set built from a literal array.\<close>

definition has :: "string list \<Rightarrow> string \<Rightarrow> bool" where
  "has codes c = (c \<in> set codes)"

definition classifySeverity :: "string \<Rightarrow> Severity" where
  "classifySeverity c =
     (if has ERROR_CODES c then Error
      else if startsWith ''W_UNSUPPORTED_'' c then Hint
      else Warning)"

text \<open>
  The body of the loop over \<open>result.diagnostics\<close>: \<open>continue\<close> leaves the list as it
  is, \<open>push\<close> appends one comment.
\<close>

definition analyze_step :: "string \<Rightarrow> Options \<Rightarrow> ReviewComment list \<Rightarrow> SerializedDiagnostic \<Rightarrow> ReviewComment list" where
  "analyze_step filePath options comments d =
     (if \<not> strict options \<and> has STRICT_ONLY_CODES (d_code d) then comments
      else comments @
        [\<lparr>path = filePath, line = d_line d, code = d_code d, body = d_message d,
          severity = classifySeverity (d_code d)\<rparr>])"

text \<open>\<open>if (result.parseError)\<close>: a string is truthy when it is not empty.\<close>

definition truthy :: "string option \<Rightarrow> bool" where
  "truthy v = (case v of None \<Rightarrow> False | Some s \<Rightarrow> s \<noteq> [])"

definition analyzeFile ::
  "Engine \<Rightarrow> string \<Rightarrow> string \<Rightarrow> (string \<times> string) list \<Rightarrow> Options \<Rightarrow> ReviewComment list" where
  "analyzeFile analyzeSource filePath content siblings options =
     (case analyzeSource content (fixpoint options) (strict options) siblings of
        Throws \<Rightarrow>
          [\<lparr>path = filePath, line = 1, code = ''W_INTERNAL_ERROR'',
            body = ''Conformal: internal analysis error on this file.'',
            severity = Warning\<rparr>]
      | Returns result \<Rightarrow>
          (if truthy (parseError result)
           then [\<lparr>path = filePath, line = 1, code = ''W_PARSE_ERROR'',
                  body = ''Conformal: syntax error: '' @ the (parseError result),
                  severity = Error\<rparr>]
           else foldl (analyze_step filePath options) [] (diagnostics result)))"

text \<open>
  The classifier as the specification words it, \<open>classify(code, strictMode)\<close> with its
  four ordered decisions; \<open>None\<close> stands for "not visible". It is compared with the
  loop body above.
\<close>

definition spec_classify :: "string \<Rightarrow> bool \<Rightarrow> Severity option" where
  "spec_classify c strictMode =
     (if c \<in> set STRICT_ONLY_CODES \<and> \<not> strictMode then None
      else if c \<in> set ERROR_CODES then Some Error
      else if prefix ''W_UNSUPPORTED_'' c then Some Hint
      else Some Warning)"

section \<open>Review batching (review.ts)\<close>

text \<open>Decimal rendering of a number inside a template literal.\<close>

fun show_nat :: "nat \<Rightarrow> string" where
  "show_nat n =
     (if n < 10 then [''0123456789'' ! n]
      else show_nat (n div 10) @ [''0123456789'' ! (n mod 10)])"

declare show_nat.simps [simp del]

definition show_int :: "int \<Rightarrow> string" where
  "show_int i = (if i < 0 then CHR ''-'' # show_nat (nat (- i)) else show_nat (nat i))"

text \<open>\<open>parts.join(sep)\<close>.\<close>

fun join :: "string \<Rightarrow> string list \<Rightarrow> string" where
  "join sep [] = []"
| "join sep [x] = x"
| "join sep (x # y # ys) = x @ sep @ join sep (y # ys)"

definition formatCommentBody :: "ReviewComment \<Rightarrow> string" where
  "formatCommentBody c =
     (if severity c = Error then '':x:''
      else if severity c = Warning then '':warning:''
      else '':information_source:'')
     @ '' **Conformal** `'' @ code c @ ''`\<newline>\<newline>'' @ body c"

text \<open>\<open>fileLines && fileLines.has(c.line)\<close> with \<open>fileLines = changedLines.get(c.path)\<close>.\<close>

definition on_diff :: "(string \<rightharpoonup> int set) \<Rightarrow> ReviewComment \<Rightarrow> bool" where
  "on_diff changedLines c =
     (case changedLines (path c) of
        None \<Rightarrow> False
      | Some fileLines \<Rightarrow> line c \<in> fileLines)"

text \<open>The first loop: each comment is pushed to \<open>inline\<close> or to \<open>outOfDiff\<close>.\<close>

definition split_step ::
  "(string \<rightharpoonup> int set) \<Rightarrow> ReviewComment list \<times> ReviewComment list \<Rightarrow> ReviewComment
     \<Rightarrow> ReviewComment list \<times> ReviewComment list" where
  "split_step changedLines acc c =
     (if on_diff changedLines c then (fst acc @ [c], snd acc) else (fst acc, snd acc @ [c]))"

definition inline :: "ReviewComment list \<Rightarrow> (string \<rightharpoonup> int set) \<Rightarrow> ReviewComment list" where
  "inline comments changedLines = fst (foldl (split_step changedLines) ([], []) comments)"

definition outOfDiff :: "ReviewComment list \<Rightarrow> (string \<rightharpoonup> int set) \<Rightarrow> ReviewComment list" where
  "outOfDiff comments changedLines = snd (foldl (split_step changedLines) ([], []) comments)"

definition inlineToPost :: "ReviewComment list \<Rightarrow> (string \<rightharpoonup> int set) \<Rightarrow> ReviewComment list" where
  "inlineToPost comments changedLines = take 50 (inline comments changedLines)"

definition overflow :: "ReviewComment list \<Rightarrow> (string \<rightharpoonup> int set) \<Rightarrow> int" where
  "overflow comments changedLines =
     int (length (inline comments changedLines)) - int (length (inlineToPost comments changedLines))"

definition outOfDiffToShow ::
  "ReviewComment list \<Rightarrow> (string \<rightharpoonup> int set) \<Rightarrow> bool \<Rightarrow> ReviewComment list" where
  "outOfDiffToShow comments changedLines filterToDiff =
     (if filterToDiff then outOfDiff comments changedLines else [])"

definition summary_item :: "ReviewComment \<Rightarrow> string" where
  "summary_item c = ''- `'' @ path c @ '':'' @ show_int (line c) @ ''`: '' @ body c"

definition summary :: "ReviewComment list \<Rightarrow> string" where
  "summary shown =
     ''<details><summary>'' @ show_nat (length shown) @ '' warnings on unchanged lines</summary>\<newline>\<newline>''
     @ join ''\<newline>'' (map summary_item (take 20 shown))
     @ (if length shown > 20
        then ''\<newline>- ... and '' @ show_nat (length shown - 20) @ '' more''
        else [])
     @ ''\<newline></details>''"

definition bodyParts :: "ReviewComment list \<Rightarrow> (string \<rightharpoonup> int set) \<Rightarrow> bool \<Rightarrow> string list" where
  "bodyParts comments changedLines filterToDiff =
     (if overflow comments changedLines > 0
      then [''... and '' @ show_int (overflow comments changedLines) @ '' more warnings not shown inline.'']
      else [])
     @ (if length (outOfDiffToShow comments changedLines filterToDiff) > 0
        then [summary (outOfDiffToShow comments changedLines filterToDiff)]
        else [])"

definition allInline :: "ReviewComment list \<Rightarrow> (string \<rightharpoonup> int set) \<Rightarrow> bool \<Rightarrow> ReviewComment list" where
  "allInline comments changedLines filterToDiff =
     (if filterToDiff then inlineToPost comments changedLines
      else take 50 (inlineToPost comments changedLines
                    @ filter (on_diff changedLines) (outOfDiff comments changedLines)))"

text \<open>The argument of \<open>octokit.rest.pulls.createReview\<close>.\<close>

record InlineComment =
  c_path :: string
  c_line :: int
  c_side :: string
  c_body :: string

record Review =
  owner :: string
  repo :: string
  pull_number :: int
  commit_id :: string
  event :: string
  review_body :: "string option"
  comments :: "InlineComment list"

definition to_inline :: "ReviewComment \<Rightarrow> InlineComment" where
  "to_inline c = \<lparr>c_path = path c, c_line = line c, c_side = ''RIGHT'', c_body = formatCommentBody c\<rparr>"

text \<open>\<open>bodyParts.join('\n\n') || undefined\<close>.\<close>

definition or_undefined :: "string \<Rightarrow> string option" where
  "or_undefined s = (if s = [] then None else Some s)"

text \<open>
  \<open>postReview\<close>: \<open>None\<close> is the early return without a call of the platform,
  \<open>Some r\<close> is the one call of \<open>createReview\<close> with the argument \<open>r\<close>.
\<close>

definition postReview ::
  "string \<Rightarrow> string \<Rightarrow> int \<Rightarrow> string \<Rightarrow> ReviewComment list \<Rightarrow> (string \<rightharpoonup> int set) \<Rightarrow> bool
     \<Rightarrow> Review option" where
  "postReview ownr rep pullNumber commitSha cs changedLines filterToDiff =
     (if length (allInline cs changedLines filterToDiff) = 0
         \<and> length (bodyParts cs changedLines filterToDiff) = 0
      then None
      else Some \<lparr>owner = ownr, repo = rep, pull_number = pullNumber, commit_id = commitSha,
                 event = ''COMMENT'',
                 review_body = or_undefined (join ''\<newline>\<newline>'' (bodyParts cs changedLines filterToDiff)),
                 comments = map to_inline (allInline cs changedLines filterToDiff)\<rparr>)"

section \<open>Properties of the diff line index\<close>

lemmas parse_defs = parsePatchLines_def parse_loop_def parse_init_def patch_step_def
  hunkMatch_def digits1_def opt_comma_digits_def is_digit_def parseInt_def digit_val_def


subsection \<open>The hunk-header matcher and the regular expression\<close>

lemma expect_iff: "expect p s = Some r \<longleftrightarrow> s = p @ r"
  by (induction p s rule: expect.induct) auto

lemma digits1_SomeD:
  "digits1 s = Some (d, r) \<Longrightarrow> s = d @ r \<and> digits d"
  by (auto simp: digits1_def Let_def digits_def split: if_splits dest: set_takeWhileD)

lemma digits1_append:
  assumes "digits d" and "r = [] \<or> \<not> is_digit (hd r)"
  shows "digits1 (d @ r) = Some (d, r)"
proof -
  from assms(2) have t: "takeWhile is_digit r = []" and dr: "dropWhile is_digit r = r"
    by (cases r; auto)+
  from assms(1) have all: "\<forall>c\<in>set d. is_digit c" and ne: "d \<noteq> []"
    by (auto simp: digits_def)
  have "takeWhile is_digit (d @ r) = d" using all t by (simp add: takeWhile_append2)
  moreover have "dropWhile is_digit (d @ r) = r" using all dr by (simp add: dropWhile_append2)
  ultimately show ?thesis using ne by (simp add: digits1_def)
qed

lemma opt_comma_digits_D: "\<exists>b. s = b @ opt_comma_digits s \<and> opt_group b"
proof (cases s)
  case Nil
  then show ?thesis by (simp add: opt_comma_digits_def opt_group_def)
next
  case (Cons c cs)
  show ?thesis
  proof (cases "c = CHR '',''")
    case False
    with Cons have "opt_comma_digits s = s" by (simp add: opt_comma_digits_def)
    then show ?thesis by (simp add: opt_group_def)
  next
    case True
    show ?thesis
    proof (cases "digits1 cs")
      case None
      with Cons True have "opt_comma_digits s = s" by (simp add: opt_comma_digits_def)
      then show ?thesis by (simp add: opt_group_def)
    next
      case (Some dr)
      obtain d r where dr: "dr = (d, r)" by (cases dr)
      with Some have "cs = d @ r \<and> digits d" by (simp add: digits1_SomeD)
      moreover from Cons True Some dr have "opt_comma_digits s = r" by (simp add: opt_comma_digits_def)
      ultimately have "s = (CHR '','' # d) @ opt_comma_digits s \<and> opt_group (CHR '','' # d)"
        using Cons True by (simp add: opt_group_def)
      then show ?thesis by blast
    qed
  qed
qed

lemma opt_comma_digits_append:
  assumes "opt_group b"
  shows "opt_comma_digits (b @ CHR '' '' # r) = CHR '' '' # r"
proof (cases "b = []")
  case True
  then show ?thesis by (simp add: opt_comma_digits_def)
next
  case False
  with assms obtain t where b: "b = CHR '','' # t" and t: "digits t"
    by (auto simp: opt_group_def)
  have "digits1 (t @ CHR '' '' # r) = Some (t, CHR '' '' # r)"
    by (rule digits1_append [OF t]) (simp add: is_digit_def)
  then show ?thesis by (simp add: b opt_comma_digits_def)
qed

lemma hunkMatch_regex: "hunkMatch raw = Some d \<longleftrightarrow> regex_match raw d"
proof
  assume "hunkMatch raw = Some d"
  then obtain r1 a r2 r3 r4 r5 where
    e1: "expect ''@@ -'' raw = Some r1" and d1: "digits1 r1 = Some (a, r2)" and
    e2: "expect '' +'' (opt_comma_digits r2) = Some r3" and d2: "digits1 r3 = Some (d, r4)" and
    e3: "expect '' @@'' (opt_comma_digits r4) = Some r5"
    unfolding hunkMatch_def by (auto split: option.splits prod.splits)
  obtain b where b: "r2 = b @ opt_comma_digits r2" "opt_group b"
    using opt_comma_digits_D by blast
  obtain c where c: "r4 = c @ opt_comma_digits r4" "opt_group c"
    using opt_comma_digits_D by blast
  from e1 have s1: "raw = ''@@ -'' @ r1" by (simp only: expect_iff)
  from d1 have s2: "r1 = a @ r2" and da: "digits a" by (auto dest: digits1_SomeD)
  from e2 have s3: "opt_comma_digits r2 = '' +'' @ r3" by (simp only: expect_iff)
  from d2 have s4: "r3 = d @ r4" and dd: "digits d" by (auto dest: digits1_SomeD)
  from e3 have s5: "opt_comma_digits r4 = '' @@'' @ r5" by (simp only: expect_iff)
  have "raw = ''@@ -'' @ a @ b @ '' +'' @ d @ c @ '' @@'' @ r5"
    using s1 s2 b(1) s3 s4 c(1) s5 by (metis append_assoc)
  with da dd b(2) c(2) show "regex_match raw d"
    unfolding regex_match_def by blast
next
  assume "regex_match raw d"
  then obtain a b c rest where
    raw: "raw = ''@@ -'' @ a @ b @ '' +'' @ d @ c @ '' @@'' @ rest" and
    da: "digits a" and ob: "opt_group b" and dd: "digits d" and oc: "opt_group c"
    unfolding regex_match_def by blast
  have nd: "\<And>t r. opt_group t \<Longrightarrow> (t @ CHR '' '' # r) = [] \<or> \<not> is_digit (hd (t @ CHR '' '' # r))"
    by (auto simp: opt_group_def is_digit_def)
  have e1: "expect ''@@ -'' raw = Some (a @ b @ '' +'' @ d @ c @ '' @@'' @ rest)"
    by (simp only: expect_iff raw)
  have d1: "digits1 (a @ b @ '' +'' @ d @ c @ '' @@'' @ rest) = Some (a, b @ '' +'' @ d @ c @ '' @@'' @ rest)"
    using nd [OF ob] by (intro digits1_append [OF da]) simp
  have o1: "opt_comma_digits (b @ '' +'' @ d @ c @ '' @@'' @ rest) = '' +'' @ d @ c @ '' @@'' @ rest"
    using opt_comma_digits_append [OF ob] by simp
  have e2: "expect '' +'' ('' +'' @ d @ c @ '' @@'' @ rest) = Some (d @ c @ '' @@'' @ rest)"
    by (simp only: expect_iff)
  have d2: "digits1 (d @ c @ '' @@'' @ rest) = Some (d, c @ '' @@'' @ rest)"
    using nd [OF oc] by (intro digits1_append [OF dd]) simp
  have o2: "opt_comma_digits (c @ '' @@'' @ rest) = '' @@'' @ rest"
    using opt_comma_digits_append [OF oc] by simp
  have e3: "expect '' @@'' ('' @@'' @ rest) = Some rest"
    by (simp only: expect_iff)
  show "hunkMatch raw = Some d"
    unfolding hunkMatch_def by (simp only: e1 d1 o1 e2 d2 o2 e3 option.case prod.case)
qed


subsection \<open>The example patch\<close>



subsection \<open>Recorded line numbers\<close>

lemma digits1_digits: "digits1 s = Some (d, r) \<Longrightarrow> \<forall>c\<in>set d. is_digit c"
  by (auto simp: digits1_def Let_def split: if_splits dest: set_takeWhileD)

lemma hunkMatch_digits: "hunkMatch raw = Some d \<Longrightarrow> \<forall>c\<in>set d. is_digit c"
  unfolding hunkMatch_def
  by (auto split: option.splits prod.splits dest: digits1_digits)

lemma digit_val_nonneg: "is_digit c \<Longrightarrow> 0 \<le> digit_val c"
  by (auto simp: is_digit_def digit_val_def)

lemma foldl_digits_nonneg:
  "0 \<le> acc \<Longrightarrow> \<forall>c\<in>set ds. is_digit c \<Longrightarrow> 0 \<le> foldl (\<lambda>acc c. 10 * acc + digit_val c) acc ds"
  by (induction ds arbitrary: acc) (auto simp: digit_val_nonneg)

lemma parseInt_nonneg: "\<forall>c\<in>set ds. is_digit c \<Longrightarrow> 0 \<le> parseInt ds"
  unfolding parseInt_def by (rule foldl_digits_nonneg) auto

lemma hunk_start_nonneg: "hunkMatch raw = Some d \<Longrightarrow> 0 \<le> parseInt d"
  by (rule parseInt_nonneg) (rule hunkMatch_digits)

lemma patch_step_bound:
  assumes "k \<le> currentLine st" and "\<forall>n\<in>lines st. k \<le> n"
    and "\<And>d. hunkMatch raw = Some d \<Longrightarrow> k \<le> parseInt d"
  shows "k \<le> currentLine (patch_step st raw) \<and> (\<forall>n\<in>lines (patch_step st raw). k \<le> n)"
  using assms by (auto simp: patch_step_def split: option.splits)

lemma patch_loop_bound:
  assumes "k \<le> currentLine st" and "\<forall>n\<in>lines st. k \<le> n"
    and "\<forall>raw\<in>set ls. \<forall>d. hunkMatch raw = Some d \<longrightarrow> k \<le> parseInt d"
  shows "k \<le> currentLine (foldl patch_step st ls) \<and> (\<forall>n\<in>lines (foldl patch_step st ls). k \<le> n)"
  using assms
proof (induction ls arbitrary: st)
  case Nil
  then show ?case by simp
next
  case (Cons raw ls)
  have step: "k \<le> currentLine (patch_step st raw) \<and> (\<forall>n\<in>lines (patch_step st raw). k \<le> n)"
    using Cons.prems by (intro patch_step_bound) auto
  show ?case
    using Cons.IH [of "patch_step st raw"] step Cons.prems(3) by simp
qed


text \<open>
  C1, as the code has it. Every recorded line number is at least 0. It is positive for
  every patch whose first line is a valid hunk header and whose hunk headers all carry
  a new-side start of at least 1.
\<close>

theorem recorded_lines:
  "(\<forall>n\<in>parsePatchLines p. 0 \<le> n) \<and>
   ((\<exists>h rest. split_lines p = h # rest \<and> hunkMatch h \<noteq> None) \<and>
    (\<forall>raw\<in>set (split_lines p). \<forall>d. hunkMatch raw = Some d \<longrightarrow> 0 < parseInt d)
    \<longrightarrow> (\<forall>n\<in>parsePatchLines p. 0 < n))"
proof
  have "0 \<le> currentLine (foldl patch_step parse_init (split_lines p)) \<and>
        (\<forall>n\<in>lines (foldl patch_step parse_init (split_lines p)). 0 \<le> n)"
    by (rule patch_loop_bound) (auto simp: parse_init_def hunk_start_nonneg)
  then show "\<forall>n\<in>parsePatchLines p. 0 \<le> n"
    by (simp add: parsePatchLines_def parse_loop_def)
next
  show "(\<exists>h rest. split_lines p = h # rest \<and> hunkMatch h \<noteq> None) \<and>
    (\<forall>raw\<in>set (split_lines p). \<forall>d. hunkMatch raw = Some d \<longrightarrow> 0 < parseInt d)
    \<longrightarrow> (\<forall>n\<in>parsePatchLines p. 0 < n)"
  proof
    assume a: "(\<exists>h rest. split_lines p = h # rest \<and> hunkMatch h \<noteq> None) \<and>
      (\<forall>raw\<in>set (split_lines p). \<forall>d. hunkMatch raw = Some d \<longrightarrow> 0 < parseInt d)"
    then obtain h rest d where sp: "split_lines p = h # rest" and hm: "hunkMatch h = Some d"
      by auto
    from a sp hm have d: "0 < parseInt d" by auto
    have first: "patch_step parse_init h = \<lparr>lines = {}, currentLine = parseInt d\<rparr>"
      using hm by (simp add: patch_step_def parse_init_def)
    have "1 \<le> currentLine (foldl patch_step (patch_step parse_init h) rest) \<and>
          (\<forall>n\<in>lines (foldl patch_step (patch_step parse_init h) rest). 1 \<le> n)"
    proof (rule patch_loop_bound)
      show "1 \<le> currentLine (patch_step parse_init h)" using first d by simp
      show "\<forall>n\<in>lines (patch_step parse_init h). 1 \<le> n" using first by simp
      show "\<forall>raw\<in>set rest. \<forall>d. hunkMatch raw = Some d \<longrightarrow> 1 \<le> parseInt d"
        using a sp by fastforce
    qed
    then show "\<forall>n\<in>parsePatchLines p. 0 < n"
      by (fastforce simp: parsePatchLines_def parse_loop_def sp)
  qed
qed


theorem recorded_lines_witness:
  "split_lines ''@@ -1,2 +1,3 @@\<newline> context\<newline>+added\<newline> context'' =
     [''@@ -1,2 +1,3 @@'', '' context'', ''+added'', '' context'']
   \<and> hunkMatch ''@@ -1,2 +1,3 @@'' = Some ''1'' \<and> parseInt ''1'' = 1
   \<and> hunkMatch '' context'' = None \<and> hunkMatch ''+added'' = None
   \<and> 2 \<in> parsePatchLines ''@@ -1,2 +1,3 @@\<newline> context\<newline>+added\<newline> context''
   \<and> 0 \<notin> parsePatchLines ''@@ -1,2 +1,3 @@\<newline> context\<newline>+added\<newline> context''"
proof -
  let ?p = "''@@ -1,2 +1,3 @@\<newline> context\<newline>+added\<newline> context''"
  have sp: "split_lines ?p = [''@@ -1,2 +1,3 @@'', '' context'', ''+added'', '' context'']"
    by simp
  have hd: "hunkMatch ''@@ -1,2 +1,3 @@'' = Some ''1''"
    by (simp add: hunkMatch_def digits1_def opt_comma_digits_def is_digit_def)
  have pi: "parseInt ''1'' = 1" by (simp add: parseInt_def digit_val_def)
  have c1: "hunkMatch '' context'' = None" and c2: "hunkMatch ''+added'' = None"
    by (simp_all add: hunkMatch_def)
  have hyp: "(\<exists>h rest. split_lines ?p = h # rest \<and> hunkMatch h \<noteq> None) \<and>
    (\<forall>raw\<in>set (split_lines ?p). \<forall>d. hunkMatch raw = Some d \<longrightarrow> 0 < parseInt d)"
    unfolding sp using hd pi c1 c2 by simp
  have mem: "2 \<in> parsePatchLines ?p" by (simp add: parse_defs)
  from recorded_lines [of ?p] hyp have "\<forall>n\<in>parsePatchLines ?p. 0 < n" by blast
  then have "0 \<notin> parsePatchLines ?p" by auto
  with sp hd pi c1 c2 mem show ?thesis by blast
qed

text \<open>
  C1 as stated fails on a patch whose only line is an added line without a hunk header
  before it: the line is no header, it is recorded under the number 0, and the cursor
  moves on to 1 instead of resting at 0.
\<close>

theorem headerless_added_line_recorded:
  "hunkMatch ''+x'' = None \<and> parsePatchLines ''+x'' = {0} \<and> currentLine (parse_loop ''+x'') = 1"
  by (simp add: parse_defs)

subsection \<open>Skipped files\<close>

lemma changed_step_skipped: "skipped f \<Longrightarrow> changed_step result f = result"
  by (auto simp: skipped_def no_patch_def changed_step_def split: option.splits)

lemma changed_step_other: "filename f \<noteq> p \<Longrightarrow> changed_step result f p = result p"
  by (auto simp: changed_step_def split: option.splits)

lemma changed_loop_absent:
  "\<forall>f\<in>set files. filename f = p \<longrightarrow> skipped f \<Longrightarrow> foldl changed_step result files p = result p"
proof (induction files arbitrary: result)
  case Nil
  then show ?case by simp
next
  case (Cons f files)
  have "changed_step result f p = result p"
  proof (cases "filename f = p")
    case True
    with Cons.prems have "skipped f" by simp
    then show ?thesis by (simp add: changed_step_skipped)
  next
    case False
    then show ?thesis by (rule changed_step_other)
  qed
  with Cons show ?case by simp
qed


text \<open>
  C9. A file with status \<open>removed\<close> or without a patch contributes no entry to the map
  of \<open>parseChangedLines\<close>: taking it out of the file list leaves the map as it is, and
  a path all of whose files are such files is an absent key (\<open>None\<close>), not a key with
  an empty set. A file counts as without a patch when the patch is missing or empty.
\<close>

theorem skipped_files_no_entry:
  "(skipped f \<longrightarrow> parseChangedLines (pre @ f # post) = parseChangedLines (pre @ post)) \<and>
   ((\<forall>g\<in>set files. filename g = p \<longrightarrow> skipped g) \<longrightarrow> parseChangedLines files p = None) \<and>
   (skipped f \<longleftrightarrow> status f = ''removed'' \<or> patch f = None \<or> patch f = Some [])"
  by (auto simp: parseChangedLines_def changed_step_skipped changed_loop_absent skipped_def no_patch_def split: option.splits)


theorem skipped_files_no_entry_witness:
  "skipped \<lparr>filename = ''a.m'', status = ''removed'', patch = Some ''+x''\<rparr> \<and>
   skipped \<lparr>filename = ''b.m'', status = ''modified'', patch = None\<rparr> \<and>
   parseChangedLines [\<lparr>filename = ''a.m'', status = ''removed'', patch = Some ''+x''\<rparr>,
                      \<lparr>filename = ''c.m'', status = ''added'', patch = Some ''@@ -0,0 +1 @@\<newline>+x''\<rparr>,
                      \<lparr>filename = ''b.m'', status = ''modified'', patch = None\<rparr>] ''a.m'' = None \<and>
   parseChangedLines [\<lparr>filename = ''a.m'', status = ''removed'', patch = Some ''+x''\<rparr>,
                      \<lparr>filename = ''c.m'', status = ''added'', patch = Some ''@@ -0,0 +1 @@\<newline>+x''\<rparr>,
                      \<lparr>filename = ''b.m'', status = ''modified'', patch = None\<rparr>] ''b.m'' = None \<and>
   parseChangedLines [\<lparr>filename = ''a.m'', status = ''removed'', patch = Some ''+x''\<rparr>,
                      \<lparr>filename = ''c.m'', status = ''added'', patch = Some ''@@ -0,0 +1 @@\<newline>+x''\<rparr>,
                      \<lparr>filename = ''b.m'', status = ''modified'', patch = None\<rparr>] ''c.m'' = Some {1}"
proof -
  let ?a = "\<lparr>filename = ''a.m'', status = ''removed'', patch = Some ''+x''\<rparr>"
  let ?b = "\<lparr>filename = ''b.m'', status = ''modified'', patch = None\<rparr>"
  let ?c = "\<lparr>filename = ''c.m'', status = ''added'', patch = Some ''@@ -0,0 +1 @@\<newline>+x''\<rparr>"
  have sa: "skipped ?a" and sb: "skipped ?b" by (simp_all add: skipped_def no_patch_def)
  have ha: "\<forall>g\<in>set [?a, ?c, ?b]. filename g = ''a.m'' \<longrightarrow> skipped g"
    by (simp add: skipped_def no_patch_def)
  have hb: "\<forall>g\<in>set [?a, ?c, ?b]. filename g = ''b.m'' \<longrightarrow> skipped g"
    by (simp add: skipped_def no_patch_def)
  have c: "parseChangedLines [?a, ?c, ?b] ''c.m'' = Some {1}"
    by (simp add: parseChangedLines_def changed_step_def parse_defs)
  from skipped_files_no_entry [of ?a "[]" "[?c, ?b]" "[?a, ?c, ?b]" "''a.m''"] ha
  have a: "parseChangedLines [?a, ?c, ?b] ''a.m'' = None" by blast
  from skipped_files_no_entry [of ?b "[?a, ?c]" "[]" "[?a, ?c, ?b]" "''b.m''"] hb
  have b: "parseChangedLines [?a, ?c, ?b] ''b.m'' = None" by blast
  from sa sb a b c show ?thesis by blast
qed


section \<open>Properties of the classifier\<close>

lemma startsWith_prefix: "startsWith p s = prefix p s"
  by (induction p s rule: startsWith.induct) auto

lemma analyze_step_spec:
  "analyze_step fp opts cs d =
     (case spec_classify (d_code d) (strict opts) of
        None \<Rightarrow> cs
      | Some sev \<Rightarrow> cs @ [\<lparr>path = fp, line = d_line d, code = d_code d, body = d_message d, severity = sev\<rparr>])"
  by (simp add: analyze_step_def spec_classify_def classifySeverity_def has_def startsWith_prefix)

lemma analyze_loop_append:
  "foldl (analyze_step fp opts) acc ds = acc @ concat (map (analyze_step fp opts []) ds)"
proof (induction ds arbitrary: acc)
  case Nil
  then show ?case by simp
next
  case (Cons d ds)
  have "analyze_step fp opts acc d = acc @ analyze_step fp opts [] d"
    by (simp add: analyze_step_def)
  then show ?case by (simp add: Cons.IH)
qed

lemma index_oob_error: "classifySeverity ''W_INDEX_OUT_OF_BOUNDS'' = Error"
  by (simp add: classifySeverity_def has_def ERROR_CODES_def)

lemma index_oob_not_strict_only: "\<not> has STRICT_ONLY_CODES ''W_INDEX_OUT_OF_BOUNDS''"
  by (simp add: has_def STRICT_ONLY_CODES_def)

lemma unsupported_syntax_hint: "classifySeverity ''W_UNSUPPORTED_SYNTAX'' = Hint"
  by (simp add: classifySeverity_def has_def ERROR_CODES_def)

lemma unsupported_syntax_strict_only: "has STRICT_ONLY_CODES ''W_UNSUPPORTED_SYNTAX''"
  by (simp add: has_def STRICT_ONLY_CODES_def)


text \<open>
  C3. The loop body of \<open>analyzeFile\<close> decides as the classifier of the specification
  does, in its order: a strict-only code outside strict mode gives no comment; else a
  code of the error set gives severity error; else the prefix \<open>W_UNSUPPORTED_\<close> gives
  hint; else warning. \<open>W_INDEX_OUT_OF_BOUNDS\<close> is an error, \<open>W_UNSUPPORTED_SYNTAX\<close> is a
  hint in strict mode and gives no comment otherwise, and a code outside both sets and
  without the prefix gives a warning comment. The function is total.
\<close>

theorem classifier_decision_order:
  "analyze_step fp opts cs d =
     (case spec_classify (d_code d) (strict opts) of
        None \<Rightarrow> cs
      | Some sev \<Rightarrow> cs @ [\<lparr>path = fp, line = d_line d, code = d_code d, body = d_message d, severity = sev\<rparr>])
   \<and> (analyzeSource content (fixpoint opts) (strict opts) siblings = Returns res \<and> \<not> truthy (parseError res)
        \<longrightarrow> analyzeFile analyzeSource fp content siblings opts =
            concat (map (\<lambda>d. case spec_classify (d_code d) (strict opts) of
                                None \<Rightarrow> []
                              | Some sev \<Rightarrow> [\<lparr>path = fp, line = d_line d, code = d_code d,
                                              body = d_message d, severity = sev\<rparr>])
                        (diagnostics res)))
   \<and> analyze_step fp opts cs (d\<lparr>d_code := ''W_INDEX_OUT_OF_BOUNDS''\<rparr>) =
       cs @ [\<lparr>path = fp, line = d_line d, code = ''W_INDEX_OUT_OF_BOUNDS'', body = d_message d, severity = Error\<rparr>]
   \<and> analyze_step fp (opts\<lparr>strict := True\<rparr>) cs (d\<lparr>d_code := ''W_UNSUPPORTED_SYNTAX''\<rparr>) =
       cs @ [\<lparr>path = fp, line = d_line d, code = ''W_UNSUPPORTED_SYNTAX'', body = d_message d, severity = Hint\<rparr>]
   \<and> analyze_step fp (opts\<lparr>strict := False\<rparr>) cs (d\<lparr>d_code := ''W_UNSUPPORTED_SYNTAX''\<rparr>) = cs
   \<and> (d_code d \<notin> set ERROR_CODES \<and> d_code d \<notin> set STRICT_ONLY_CODES \<and> \<not> startsWith ''W_UNSUPPORTED_'' (d_code d)
        \<longrightarrow> analyze_step fp opts cs d =
            cs @ [\<lparr>path = fp, line = d_line d, code = d_code d, body = d_message d, severity = Warning\<rparr>])"
proof (intro conjI impI)
  show "analyze_step fp opts cs d =
     (case spec_classify (d_code d) (strict opts) of
        None \<Rightarrow> cs
      | Some sev \<Rightarrow> cs @ [\<lparr>path = fp, line = d_line d, code = d_code d, body = d_message d, severity = sev\<rparr>])"
    by (rule analyze_step_spec)
next
  assume a: "analyzeSource content (fixpoint opts) (strict opts) siblings = Returns res \<and> \<not> truthy (parseError res)"
  have "analyzeFile analyzeSource fp content siblings opts = concat (map (analyze_step fp opts []) (diagnostics res))"
    using a by (simp add: analyzeFile_def analyze_loop_append)
  also have "map (analyze_step fp opts []) (diagnostics res) =
      map (\<lambda>d. case spec_classify (d_code d) (strict opts) of
                                None \<Rightarrow> []
                              | Some sev \<Rightarrow> [\<lparr>path = fp, line = d_line d, code = d_code d,
                                              body = d_message d, severity = sev\<rparr>]) (diagnostics res)"
    by (rule map_cong) (auto simp: analyze_step_spec split: option.splits)
  finally show "analyzeFile analyzeSource fp content siblings opts =
            concat (map (\<lambda>d. case spec_classify (d_code d) (strict opts) of
                                None \<Rightarrow> []
                              | Some sev \<Rightarrow> [\<lparr>path = fp, line = d_line d, code = d_code d,
                                              body = d_message d, severity = sev\<rparr>])
                        (diagnostics res))" .
next
  show "analyze_step fp opts cs (d\<lparr>d_code := ''W_INDEX_OUT_OF_BOUNDS''\<rparr>) =
       cs @ [\<lparr>path = fp, line = d_line d, code = ''W_INDEX_OUT_OF_BOUNDS'', body = d_message d, severity = Error\<rparr>]"
    by (simp add: analyze_step_def index_oob_error index_oob_not_strict_only)
next
  show "analyze_step fp (opts\<lparr>strict := True\<rparr>) cs (d\<lparr>d_code := ''W_UNSUPPORTED_SYNTAX''\<rparr>) =
       cs @ [\<lparr>path = fp, line = d_line d, code = ''W_UNSUPPORTED_SYNTAX'', body = d_message d, severity = Hint\<rparr>]"
    by (simp add: analyze_step_def unsupported_syntax_hint)
next
  show "analyze_step fp (opts\<lparr>strict := False\<rparr>) cs (d\<lparr>d_code := ''W_UNSUPPORTED_SYNTAX''\<rparr>) = cs"
    by (simp add: analyze_step_def unsupported_syntax_strict_only)
next
  assume "d_code d \<notin> set ERROR_CODES \<and> d_code d \<notin> set STRICT_ONLY_CODES \<and> \<not> startsWith ''W_UNSUPPORTED_'' (d_code d)"
  then show "analyze_step fp opts cs d =
            cs @ [\<lparr>path = fp, line = d_line d, code = d_code d, body = d_message d, severity = Warning\<rparr>]"
    by (simp add: analyze_step_def classifySeverity_def has_def)
qed


theorem classifier_decision_order_witness:
  "''W_SOMETHING_NEW'' \<notin> set ERROR_CODES \<and> ''W_SOMETHING_NEW'' \<notin> set STRICT_ONLY_CODES
   \<and> \<not> startsWith ''W_UNSUPPORTED_'' ''W_SOMETHING_NEW''
   \<and> analyze_step ''f.m'' \<lparr>strict = False, fixpoint = False\<rparr> []
        \<lparr>d_line = 4, d_col = 1, d_code = ''W_SOMETHING_NEW'', d_message = ''m'',
               d_relatedLine = None, d_relatedCol = None\<rparr> =
      [\<lparr>path = ''f.m'', line = 4, code = ''W_SOMETHING_NEW'', body = ''m'', severity = Warning\<rparr>]
   \<and> analyzeFile
        (\<lambda>content fx st siblings. Returns \<lparr>diagnostics =
            [\<lparr>d_line = 4, d_col = 1, d_code = ''W_SOMETHING_NEW'', d_message = ''m'',
               d_relatedLine = None, d_relatedCol = None\<rparr>,
             \<lparr>d_line = 5, d_col = 1, d_code = ''W_UNSUPPORTED_SYNTAX'', d_message = ''n'',
               d_relatedLine = None, d_relatedCol = None\<rparr>,
             \<lparr>d_line = 6, d_col = 1, d_code = ''W_INDEX_OUT_OF_BOUNDS'', d_message = ''o'',
               d_relatedLine = None, d_relatedCol = None\<rparr>],
            env = [], symbols = [], parseError = None\<rparr>)
        ''f.m'' ''x = 1;'' [] \<lparr>strict = False, fixpoint = False\<rparr> =
      [\<lparr>path = ''f.m'', line = 4, code = ''W_SOMETHING_NEW'', body = ''m'', severity = Warning\<rparr>,
       \<lparr>path = ''f.m'', line = 6, code = ''W_INDEX_OUT_OF_BOUNDS'', body = ''o'', severity = Error\<rparr>]"
proof -
  let ?d = "\<lparr>d_line = 4, d_col = 1, d_code = ''W_SOMETHING_NEW'', d_message = ''m'',
               d_relatedLine = None, d_relatedCol = None\<rparr>"
  let ?res = "\<lparr>diagnostics =
            [?d,
             \<lparr>d_line = 5, d_col = 1, d_code = ''W_UNSUPPORTED_SYNTAX'', d_message = ''n'',
               d_relatedLine = None, d_relatedCol = None\<rparr>,
             \<lparr>d_line = 6, d_col = 1, d_code = ''W_INDEX_OUT_OF_BOUNDS'', d_message = ''o'',
               d_relatedLine = None, d_relatedCol = None\<rparr>],
            env = [], symbols = [], parseError = None\<rparr>"
  let ?opts = "\<lparr>strict = False, fixpoint = False\<rparr>"
  have h1: "''W_SOMETHING_NEW'' \<notin> set ERROR_CODES" by (simp add: ERROR_CODES_def)
  have h2: "''W_SOMETHING_NEW'' \<notin> set STRICT_ONLY_CODES" by (simp add: STRICT_ONLY_CODES_def)
  have h3: "\<not> startsWith ''W_UNSUPPORTED_'' ''W_SOMETHING_NEW''" by simp
  have h4: "\<not> truthy (parseError ?res)" by (simp add: truthy_def)
  have s1: "spec_classify ''W_SOMETHING_NEW'' False = Some Warning"
    using h1 h2 h3 by (simp add: spec_classify_def startsWith_prefix)
  have s2: "spec_classify ''W_UNSUPPORTED_SYNTAX'' False = None"
    by (simp add: spec_classify_def STRICT_ONLY_CODES_def)
  have s3: "spec_classify ''W_INDEX_OUT_OF_BOUNDS'' False = Some Error"
    by (simp add: spec_classify_def STRICT_ONLY_CODES_def ERROR_CODES_def)
  from classifier_decision_order
         [where fp = "''f.m''" and opts = ?opts and cs = "[]" and d = ?d
            and analyzeSource = "\<lambda>content fx st siblings. Returns ?res"
            and content = "''x = 1;''" and siblings = "[]" and res = ?res]
       h1 h2 h3 h4 s1 s2 s3
  show ?thesis by simp
qed

text \<open>
  C10. For a code outside the strict-only set the classification does not depend on
  strict mode: in both modes the loop body appends one comment, and its severity is
  the one \<open>classifySeverity\<close> computes from the code alone.
\<close>

theorem classification_independent_of_strict:
  assumes "d_code d \<notin> set STRICT_ONLY_CODES"
  shows "analyze_step fp \<lparr>strict = True, fixpoint = fx\<rparr> cs d =
           analyze_step fp \<lparr>strict = False, fixpoint = fx'\<rparr> cs d
       \<and> analyze_step fp \<lparr>strict = s, fixpoint = fx\<rparr> cs d =
           cs @ [\<lparr>path = fp, line = d_line d, code = d_code d, body = d_message d,
                  severity = classifySeverity (d_code d)\<rparr>]"
  using assms by (simp add: analyze_step_def has_def)

theorem classification_independent_of_strict_witness:
  "''W_DIVISION_BY_ZERO'' \<notin> set STRICT_ONLY_CODES
   \<and> analyze_step ''f.m'' \<lparr>strict = True, fixpoint = False\<rparr> []
        \<lparr>d_line = 9, d_col = 3, d_code = ''W_DIVISION_BY_ZERO'', d_message = ''m'',
               d_relatedLine = None, d_relatedCol = None\<rparr> =
     analyze_step ''f.m'' \<lparr>strict = False, fixpoint = False\<rparr> []
        \<lparr>d_line = 9, d_col = 3, d_code = ''W_DIVISION_BY_ZERO'', d_message = ''m'',
               d_relatedLine = None, d_relatedCol = None\<rparr>
   \<and> analyze_step ''f.m'' \<lparr>strict = False, fixpoint = False\<rparr> []
        \<lparr>d_line = 9, d_col = 3, d_code = ''W_DIVISION_BY_ZERO'', d_message = ''m'',
               d_relatedLine = None, d_relatedCol = None\<rparr> =
     [\<lparr>path = ''f.m'', line = 9, code = ''W_DIVISION_BY_ZERO'', body = ''m'', severity = Error\<rparr>]"
proof -
  let ?d = "\<lparr>d_line = 9, d_col = 3, d_code = ''W_DIVISION_BY_ZERO'', d_message = ''m'',
               d_relatedLine = None, d_relatedCol = None\<rparr>"
  have h: "d_code ?d \<notin> set STRICT_ONLY_CODES" by (simp add: STRICT_ONLY_CODES_def)
  have sev: "classifySeverity ''W_DIVISION_BY_ZERO'' = Error"
    by (simp add: classifySeverity_def has_def ERROR_CODES_def)
  from classification_independent_of_strict
         [OF h, where fp = "''f.m''" and fx = False and fx' = False and s = False and cs = "[]"] h sev
  show ?thesis by simp
qed

text \<open>
  C5. When the engine call throws, \<open>analyzeFile\<close> returns exactly one comment, at line 1
  with severity warning; when the engine returns a result whose \<open>parseError\<close> is set (a
  non-empty string, which is what the test of the source accepts), it returns exactly
  one comment, at line 1 with severity error. In both cases \<open>analyzeFile\<close> returns a
  list: the failure does not leave it.
\<close>

theorem engine_failure_one_comment:
  "(analyzeSource content (fixpoint opts) (strict opts) siblings = Throws \<longrightarrow>
      analyzeFile analyzeSource fp content siblings opts =
        [\<lparr>path = fp, line = 1, code = ''W_INTERNAL_ERROR'',
          body = ''Conformal: internal analysis error on this file.'', severity = Warning\<rparr>])
   \<and> (analyzeSource content (fixpoint opts) (strict opts) siblings = Returns res
        \<and> parseError res = Some msg \<and> msg \<noteq> [] \<longrightarrow>
      analyzeFile analyzeSource fp content siblings opts =
        [\<lparr>path = fp, line = 1, code = ''W_PARSE_ERROR'',
          body = ''Conformal: syntax error: '' @ msg, severity = Error\<rparr>])"
  by (simp add: analyzeFile_def truthy_def)

theorem engine_failure_one_comment_witness:
  "analyzeFile (\<lambda>content fx st siblings. Throws) ''f.m'' ''x = [1 2'' []
      \<lparr>strict = False, fixpoint = False\<rparr> =
     [\<lparr>path = ''f.m'', line = 1, code = ''W_INTERNAL_ERROR'',
       body = ''Conformal: internal analysis error on this file.'', severity = Warning\<rparr>]
   \<and> analyzeFile
        (\<lambda>content fx st siblings.
           Returns \<lparr>diagnostics =
                      [\<lparr>d_line = 3, d_col = 1, d_code = ''W_DIVISION_BY_ZERO'', d_message = ''m'',
               d_relatedLine = None, d_relatedCol = None\<rparr>],
                    env = [], symbols = [], parseError = Some ''unexpected end of input''\<rparr>)
        ''f.m'' ''x = [1 2'' [] \<lparr>strict = False, fixpoint = False\<rparr> =
     [\<lparr>path = ''f.m'', line = 1, code = ''W_PARSE_ERROR'',
       body = ''Conformal: syntax error: unexpected end of input'', severity = Error\<rparr>]"
proof -
  let ?opts = "\<lparr>strict = False, fixpoint = False\<rparr>"
  let ?res = "\<lparr>diagnostics =
                  [\<lparr>d_line = 3, d_col = 1, d_code = ''W_DIVISION_BY_ZERO'', d_message = ''m'',
               d_relatedLine = None, d_relatedCol = None\<rparr>],
                env = [], symbols = [], parseError = Some ''unexpected end of input''\<rparr>"
  from engine_failure_one_comment
         [where analyzeSource = "\<lambda>content fx st siblings. Throws" and content = "''x = [1 2''"
            and opts = ?opts and siblings = "[]" and fp = "''f.m''"]
  have a: "analyzeFile (\<lambda>content fx st siblings. Throws) ''f.m'' ''x = [1 2'' [] ?opts =
     [\<lparr>path = ''f.m'', line = 1, code = ''W_INTERNAL_ERROR'',
       body = ''Conformal: internal analysis error on this file.'', severity = Warning\<rparr>]"
    by simp
  from engine_failure_one_comment
         [where analyzeSource = "\<lambda>content fx st siblings. Returns ?res"
            and content = "''x = [1 2''" and opts = ?opts and siblings = "[]" and fp = "''f.m''"
            and res = ?res and msg = "''unexpected end of input''"]
  have b: "analyzeFile (\<lambda>content fx st siblings. Returns ?res) ''f.m'' ''x = [1 2'' [] ?opts =
     [\<lparr>path = ''f.m'', line = 1, code = ''W_PARSE_ERROR'',
       body = ''Conformal: syntax error: unexpected end of input'', severity = Error\<rparr>]"
    by simp
  from a b show ?thesis by simp
qed

section \<open>Properties of the review batcher\<close>

lemmas review_defs = postReview_def allInline_def inlineToPost_def inline_def outOfDiff_def
  split_step_def on_diff_def bodyParts_def overflow_def outOfDiffToShow_def to_inline_def
  formatCommentBody_def or_undefined_def

lemma split_loop:
  "foldl (split_step idx) acc cs =
     (fst acc @ filter (on_diff idx) cs, snd acc @ filter (\<lambda>c. \<not> on_diff idx c) cs)"
  by (induction cs arbitrary: acc) (auto simp: split_step_def)

lemma inline_filter: "inline cs idx = filter (on_diff idx) cs"
  by (simp add: inline_def split_loop)

lemma outOfDiff_filter: "outOfDiff cs idx = filter (\<lambda>c. \<not> on_diff idx c) cs"
  by (simp add: outOfDiff_def split_loop)

lemma extra_branch_empty: "filter (on_diff idx) (outOfDiff cs idx) = []"
  by (simp add: outOfDiff_filter)

lemma allInline_capped: "allInline cs idx f = take 50 (filter (on_diff idx) cs)"
  by (simp add: allInline_def inlineToPost_def inline_filter extra_branch_empty)

lemma overflow_eq: "overflow cs idx = int (length (filter (on_diff idx) cs)) - int (min (length (filter (on_diff idx) cs)) 50)"
  by (simp add: overflow_def inlineToPost_def inline_filter)


text \<open>
  C2. For every comment list, line index and value of \<open>filterToDiff\<close>, the final inline
  list is the first 50 of the comments whose path and line are in the index, so it has
  at most 50 entries and is the same list in both modes: the re-filtered out-of-diff
  list of the unfiltered mode is empty. The comments of an emitted review are the
  rendering of exactly this list.
\<close>

theorem inline_list_capped:
  "allInline cs idx f = take 50 (filter (on_diff idx) cs)
   \<and> length (allInline cs idx f) \<le> 50
   \<and> allInline cs idx True = allInline cs idx False
   \<and> filter (on_diff idx) (outOfDiff cs idx) = []
   \<and> (postReview ownr rep n sha cs idx f = Some rv \<longrightarrow>
        comments rv = map to_inline (take 50 (filter (on_diff idx) cs)) \<and> length (comments rv) \<le> 50)"
  by (auto simp: allInline_capped extra_branch_empty postReview_def split: if_splits)


theorem inline_list_capped_witness:
  "\<exists>rv. postReview ''o'' ''r'' 7 ''sha''
           [\<lparr>path = ''a.m'', line = 2, code = ''W_X'', body = ''on'', severity = Warning\<rparr>,
            \<lparr>path = ''a.m'', line = 5, code = ''W_Y'', body = ''off'', severity = Error\<rparr>]
           [''a.m'' \<mapsto> {2}] False = Some rv
      \<and> comments rv =
          [\<lparr>c_path = ''a.m'', c_line = 2, c_side = ''RIGHT'',
            c_body = '':warning: **Conformal** `W_X`\<newline>\<newline>on''\<rparr>]
      \<and> length (comments rv) \<le> 50"
proof -
  let ?cs = "[\<lparr>path = ''a.m'', line = 2, code = ''W_X'', body = ''on'', severity = Warning\<rparr>,
              \<lparr>path = ''a.m'', line = 5, code = ''W_Y'', body = ''off'', severity = Error\<rparr>]"
  let ?idx = "[''a.m'' \<mapsto> {2::int}]"
  obtain rv where rv: "postReview ''o'' ''r'' 7 ''sha'' ?cs ?idx False = Some rv"
    by (simp add: review_defs)
  from inline_list_capped
         [where ownr = "''o''" and rep = "''r''" and n = 7 and sha = "''sha''" and cs = ?cs
            and idx = ?idx and f = False and rv = rv] rv
  have "comments rv = map to_inline (take 50 (filter (on_diff ?idx) ?cs)) \<and> length (comments rv) \<le> 50"
    by blast
  then have "comments rv =
          [\<lparr>c_path = ''a.m'', c_line = 2, c_side = ''RIGHT'',
            c_body = '':warning: **Conformal** `W_X`\<newline>\<newline>on''\<rparr>]
      \<and> length (comments rv) \<le> 50"
    by (simp add: on_diff_def to_inline_def formatCommentBody_def)
  with rv show ?thesis by blast
qed

lemma join_empty_iff: "\<forall>p\<in>set parts. p \<noteq> [] \<Longrightarrow> join sep parts = [] \<longleftrightarrow> parts = []"
  by (induction sep parts rule: join.induct) auto

lemma bodyParts_nonempty: "\<forall>p\<in>set (bodyParts cs idx f). p \<noteq> []"
  by (auto simp: bodyParts_def summary_def)

lemma bodyParts_empty_iff:
  "bodyParts cs idx f = [] \<longleftrightarrow> length (filter (on_diff idx) cs) \<le> 50 \<and> (f \<longrightarrow> (\<forall>c\<in>set cs. on_diff idx c))"
  by (auto simp: bodyParts_def overflow_eq outOfDiffToShow_def outOfDiff_filter filter_empty_conv)


text \<open>
  C4. \<open>postReview\<close> returns without calling the platform if and only if the final inline
  list is empty and no body part was composed (which is the same as an empty joined
  body text); that is the case exactly when no comment is on a diff line and, in the
  filtering mode, there is no comment at all. For an empty comment list nothing is
  submitted.
\<close>

theorem no_submission_iff:
  "(postReview ownr rep n sha cs idx f = None \<longleftrightarrow> allInline cs idx f = [] \<and> bodyParts cs idx f = [])
   \<and> (bodyParts cs idx f = [] \<longleftrightarrow> join ''\<newline>\<newline>'' (bodyParts cs idx f) = [])
   \<and> (postReview ownr rep n sha cs idx f = None \<longleftrightarrow> (\<forall>c\<in>set cs. \<not> on_diff idx c) \<and> (f \<longrightarrow> cs = []))
   \<and> postReview ownr rep n sha [] idx f = None"
proof (intro conjI)
  show a: "postReview ownr rep n sha cs idx f = None \<longleftrightarrow> allInline cs idx f = [] \<and> bodyParts cs idx f = []"
    by (simp add: postReview_def)
  show "bodyParts cs idx f = [] \<longleftrightarrow> join ''\<newline>\<newline>'' (bodyParts cs idx f) = []"
    using join_empty_iff [OF bodyParts_nonempty] by blast
  have "allInline cs idx f = [] \<longleftrightarrow> (\<forall>c\<in>set cs. \<not> on_diff idx c)"
    by (auto simp: allInline_capped filter_empty_conv)
  then show b: "postReview ownr rep n sha cs idx f = None \<longleftrightarrow> (\<forall>c\<in>set cs. \<not> on_diff idx c) \<and> (f \<longrightarrow> cs = [])"
    unfolding a bodyParts_empty_iff
    by (cases cs) (auto simp: filter_empty_conv)
  show "postReview ownr rep n sha [] idx f = None"
    by (simp add: postReview_def allInline_capped bodyParts_empty_iff)
qed


theorem no_submission_iff_witness:
  "\<not> on_diff [''a.m'' \<mapsto> {2}]
       \<lparr>path = ''a.m'', line = 5, code = ''W_Y'', body = ''off'', severity = Error\<rparr>
   \<and> postReview ''o'' ''r'' 7 ''sha''
        [\<lparr>path = ''a.m'', line = 5, code = ''W_Y'', body = ''off'', severity = Error\<rparr>]
        [''a.m'' \<mapsto> {2}] False = None
   \<and> postReview ''o'' ''r'' 7 ''sha''
        [\<lparr>path = ''a.m'', line = 5, code = ''W_Y'', body = ''off'', severity = Error\<rparr>]
        [''a.m'' \<mapsto> {2}] True \<noteq> None
   \<and> postReview ''o'' ''r'' 7 ''sha'' [] [''a.m'' \<mapsto> {2}] True = None"
proof -
  let ?cs = "[\<lparr>path = ''a.m'', line = 5, code = ''W_Y'', body = ''off'', severity = Error\<rparr>]"
  let ?idx = "[''a.m'' \<mapsto> {2::int}]"
  have off: "\<forall>c\<in>set ?cs. \<not> on_diff ?idx c" by (simp add: on_diff_def)
  from no_submission_iff
         [where ownr = "''o''" and rep = "''r''" and n = 7 and sha = "''sha''" and cs = ?cs
            and idx = ?idx and f = False]
  have "postReview ''o'' ''r'' 7 ''sha'' ?cs ?idx False = None \<longleftrightarrow>
          (\<forall>c\<in>set ?cs. \<not> on_diff ?idx c) \<and> (False \<longrightarrow> ?cs = [])"
    by blast
  with off have a: "postReview ''o'' ''r'' 7 ''sha'' ?cs ?idx False = None" by simp
  from no_submission_iff
         [where ownr = "''o''" and rep = "''r''" and n = 7 and sha = "''sha''" and cs = ?cs
            and idx = ?idx and f = True]
  have "postReview ''o'' ''r'' 7 ''sha'' ?cs ?idx True = None \<longleftrightarrow>
          (\<forall>c\<in>set ?cs. \<not> on_diff ?idx c) \<and> (True \<longrightarrow> ?cs = [])"
    by blast
  then have b: "postReview ''o'' ''r'' 7 ''sha'' ?cs ?idx True \<noteq> None" by simp
  from no_submission_iff
         [where ownr = "''o''" and rep = "''r''" and n = 7 and sha = "''sha''" and cs = "[]"
            and idx = ?idx and f = True]
  have c: "postReview ''o'' ''r'' 7 ''sha'' [] ?idx True = None" by blast
  from off a b c show ?thesis by simp
qed

lemma split_lines_no_newline: "CHR 0x0A \<notin> set l \<Longrightarrow> split_lines l = [l]"
  by (induction l) auto

lemma split_lines_first: "CHR 0x0A \<notin> set l \<Longrightarrow> split_lines (l @ CHR 0x0A # r) = l # split_lines r"
  by (induction l) auto

lemma show_int_10: "show_int 10 = ''10''"
  by (simp add: show_int_def show_nat.simps)


text \<open>
  C6. With 60 comments on diff lines and \<open>filterToDiff = true\<close> a review is submitted;
  it has exactly 50 inline comments, the first 50 eligible ones, and its body contains
  the line \<open>... and 10 more warnings not shown inline.\<close> (it is the first body part; when
  the input holds nothing but the 60 comments it is the whole body).
\<close>

theorem sixty_eligible:
  assumes "length (filter (on_diff idx) cs) = 60"
  shows "\<exists>rv b. postReview ownr rep n sha cs idx True = Some rv
           \<and> length (comments rv) = 50
           \<and> comments rv = map to_inline (take 50 (filter (on_diff idx) cs))
           \<and> hd (bodyParts cs idx True) = ''... and 10 more warnings not shown inline.''
           \<and> review_body rv = Some b
           \<and> ''... and 10 more warnings not shown inline.'' \<in> set (split_lines b)
           \<and> (length cs = 60 \<longrightarrow> b = ''... and 10 more warnings not shown inline.'')"
proof -
  let ?L = "''... and 10 more warnings not shown inline.''"
  let ?ood = "outOfDiffToShow cs idx True"
  have ov: "overflow cs idx = 10" using assms by (simp add: overflow_eq)
  have bp: "bodyParts cs idx True = ?L # (if length ?ood > 0 then [summary ?ood] else [])"
    by (simp add: bodyParts_def ov show_int_10)
  have len: "length (allInline cs idx True) = 50"
    using assms by (simp add: allInline_capped)
  have nl: "CHR 0x0A \<notin> set ?L" by simp
  let ?b = "join ''\<newline>\<newline>'' (bodyParts cs idx True)"
  have post: "postReview ownr rep n sha cs idx True =
      Some \<lparr>owner = ownr, repo = rep, pull_number = n, commit_id = sha, event = ''COMMENT'',
            review_body = or_undefined ?b,
            comments = map to_inline (allInline cs idx True)\<rparr>"
    using len by (simp add: postReview_def)
  have b_cases: "?b = ?L \<or> (\<exists>r. ?b = ?L @ CHR 0x0A # r)"
    by (simp add: bp)
  then have mem: "?L \<in> set (split_lines ?b)"
    using split_lines_no_newline [OF nl] split_lines_first [OF nl] by auto
  from b_cases have "?b \<noteq> []" by auto
  then have body: "or_undefined ?b = Some ?b" by (simp add: or_undefined_def)
  have exact: "length cs = 60 \<longrightarrow> ?b = ?L"
  proof
    assume "length cs = 60"
    with assms sum_length_filter_compl [of "on_diff idx" cs]
    have "length (filter (\<lambda>c. \<not> on_diff idx c) cs) = 0" by simp
    then show "?b = ?L" by (simp add: bp outOfDiffToShow_def outOfDiff_filter)
  qed
  show ?thesis
    using post len body mem exact by (simp add: allInline_capped bp)
qed


theorem sixty_eligible_witness:
  "length (filter (on_diff [''a.m'' \<mapsto> {2}])
      (replicate 60 \<lparr>path = ''a.m'', line = 2, code = ''W_X'', body = ''msg'', severity = Warning\<rparr>)) = 60
   \<and> (\<exists>rv. postReview ''o'' ''r'' 7 ''sha''
              (replicate 60 \<lparr>path = ''a.m'', line = 2, code = ''W_X'', body = ''msg'', severity = Warning\<rparr>)
              [''a.m'' \<mapsto> {2}] True = Some rv
          \<and> length (comments rv) = 50
          \<and> review_body rv = Some ''... and 10 more warnings not shown inline.'')"
proof -
  let ?c = "\<lparr>path = ''a.m'', line = 2, code = ''W_X'', body = ''msg'', severity = Warning\<rparr>"
  let ?idx = "[''a.m'' \<mapsto> {2::int}]"
  have h: "length (filter (on_diff ?idx) (replicate 60 ?c)) = 60"
    by (simp add: on_diff_def)
  from sixty_eligible [OF h, where ownr = "''o''" and rep = "''r''" and n = 7 and sha = "''sha''"]
  have "\<exists>rv. postReview ''o'' ''r'' 7 ''sha'' (replicate 60 ?c) ?idx True = Some rv
          \<and> length (comments rv) = 50
          \<and> review_body rv = Some ''... and 10 more warnings not shown inline.''"
    by auto
  with h show ?thesis by blast
qed

text \<open>
  C8. With \<open>filterToDiff = false\<close> no out-of-diff summary is appended: the body parts are
  at most the overflow line. A comment whose path and line are not in the index is not
  in the final inline list, every inline comment of the submitted review sits on a line
  of the index, and the outcome of \<open>postReview\<close> is the same as on the input without its
  out-of-diff comments: they are dropped without a trace.
\<close>

theorem unfiltered_drops_out_of_diff:
  "outOfDiffToShow cs idx False = []
   \<and> bodyParts cs idx False =
       (if overflow cs idx > 0
        then [''... and '' @ show_int (overflow cs idx) @ '' more warnings not shown inline.'']
        else [])
   \<and> (\<not> on_diff idx c \<longrightarrow> c \<notin> set (allInline cs idx False))
   \<and> (postReview ownr rep n sha cs idx False = Some rv \<longrightarrow>
        (\<forall>ic\<in>set (comments rv). \<exists>fileLines. idx (c_path ic) = Some fileLines \<and> c_line ic \<in> fileLines))
   \<and> postReview ownr rep n sha cs idx False =
       postReview ownr rep n sha (filter (on_diff idx) cs) idx False"
proof (intro conjI impI)
  show "outOfDiffToShow cs idx False = []" by (simp add: outOfDiffToShow_def)
  show "bodyParts cs idx False =
       (if overflow cs idx > 0
        then [''... and '' @ show_int (overflow cs idx) @ '' more warnings not shown inline.'']
        else [])"
    by (simp add: bodyParts_def outOfDiffToShow_def)
  show "c \<notin> set (allInline cs idx False)" if "\<not> on_diff idx c"
    using that by (auto simp: allInline_capped dest: in_set_takeD)
  show "\<forall>ic\<in>set (comments rv). \<exists>fileLines. idx (c_path ic) = Some fileLines \<and> c_line ic \<in> fileLines"
    if "postReview ownr rep n sha cs idx False = Some rv"
  proof
    fix ic assume "ic \<in> set (comments rv)"
    with that obtain c where c: "c \<in> set (allInline cs idx False)" and ic: "ic = to_inline c"
      by (auto simp: postReview_def split: if_splits)
    from c have "on_diff idx c" by (auto simp: allInline_capped dest: in_set_takeD)
    then show "\<exists>fileLines. idx (c_path ic) = Some fileLines \<and> c_line ic \<in> fileLines"
      by (auto simp: ic to_inline_def on_diff_def split: option.splits)
  qed
  have ov: "overflow (filter (on_diff idx) cs) idx = overflow cs idx"
    by (simp add: overflow_eq)
  have ai: "allInline (filter (on_diff idx) cs) idx False = allInline cs idx False"
    by (simp add: allInline_capped)
  have bp: "bodyParts (filter (on_diff idx) cs) idx False = bodyParts cs idx False"
    by (simp add: bodyParts_def outOfDiffToShow_def ov)
  show "postReview ownr rep n sha cs idx False =
       postReview ownr rep n sha (filter (on_diff idx) cs) idx False"
    by (simp only: postReview_def ai bp)
qed


theorem unfiltered_drops_out_of_diff_witness:
  "\<not> on_diff [''a.m'' \<mapsto> {2}] \<lparr>path = ''a.m'', line = 5, code = ''W_Y'', body = ''off'', severity = Error\<rparr>
   \<and> \<lparr>path = ''a.m'', line = 5, code = ''W_Y'', body = ''off'', severity = Error\<rparr>
       \<notin> set (allInline
                [\<lparr>path = ''a.m'', line = 2, code = ''W_X'', body = ''on'', severity = Warning\<rparr>,
                 \<lparr>path = ''a.m'', line = 5, code = ''W_Y'', body = ''off'', severity = Error\<rparr>]
                [''a.m'' \<mapsto> {2}] False)
   \<and> postReview ''o'' ''r'' 7 ''sha''
        [\<lparr>path = ''a.m'', line = 2, code = ''W_X'', body = ''on'', severity = Warning\<rparr>,
         \<lparr>path = ''a.m'', line = 5, code = ''W_Y'', body = ''off'', severity = Error\<rparr>]
        [''a.m'' \<mapsto> {2}] False =
      Some \<lparr>owner = ''o'', repo = ''r'', pull_number = 7, commit_id = ''sha'', event = ''COMMENT'',
            review_body = None,
            comments = [\<lparr>c_path = ''a.m'', c_line = 2, c_side = ''RIGHT'',
                         c_body = '':warning: **Conformal** `W_X`\<newline>\<newline>on''\<rparr>]\<rparr>"
proof -
  let ?on = "\<lparr>path = ''a.m'', line = 2, code = ''W_X'', body = ''on'', severity = Warning\<rparr>"
  let ?off = "\<lparr>path = ''a.m'', line = 5, code = ''W_Y'', body = ''off'', severity = Error\<rparr>"
  let ?idx = "[''a.m'' \<mapsto> {2::int}]"
  have h: "\<not> on_diff ?idx ?off" by (simp add: on_diff_def)
  have f: "filter (on_diff ?idx) [?on, ?off] = [?on]" by (simp add: on_diff_def)
  have p: "postReview ''o'' ''r'' 7 ''sha'' [?on] ?idx False =
      Some \<lparr>owner = ''o'', repo = ''r'', pull_number = 7, commit_id = ''sha'', event = ''COMMENT'',
            review_body = None,
            comments = [\<lparr>c_path = ''a.m'', c_line = 2, c_side = ''RIGHT'',
                         c_body = '':warning: **Conformal** `W_X`\<newline>\<newline>on''\<rparr>]\<rparr>"
    by (simp add: review_defs)
  from unfiltered_drops_out_of_diff
         [where cs = "[?on, ?off]" and idx = ?idx and c = ?off and ownr = "''o''" and rep = "''r''"
            and n = 7 and sha = "''sha''"] h f p
  show ?thesis by simp
qed

end
